theory Spec2Isabelle
  imports Complex_Main
begin

section \<open>Three-period life-cycle model (question-1.py)\<close>

text \<open>
  The script solves a three-period consumption/savings problem by backward induction.
  Python floats are read as real numbers here: unless it says otherwise, a statement
  below is about the exact-arithmetic reading of the script. The one place where rounding
  decides which branch the script takes, the consumption test at the upper bound handed
  to the optimiser, is also modelled in double precision.
\<close>

subsection \<open>Module-level parameters (lines 10-31)\<close>

definition gamma :: real where
  "gamma = 2"

definition beta :: real where
  "beta = (985 / 1000) ^ 20"

definition r :: real where
  "r = (1025 / 1000) ^ 20 - 1"

definition productivity_types :: "real list" where
  "productivity_types = [8027 / 10000, 1, 12457 / 10000]"

definition P :: "real list list" where
  "P = [[7451 / 10000, 2528 / 10000, 21 / 10000],
        [1360 / 10000, 7281 / 10000, 1360 / 10000],
        [21 / 10000, 2528 / 10000, 7451 / 10000]]"

definition a_min :: real where
  "a_min = 0"

definition a_max :: real where
  "a_max = 5"

definition n_grid :: nat where
  "n_grid = 100"

text \<open>
  Modelled from the spec: \<open>numpy.linspace\<close> is library code; the grid is "100 evenly
  spaced points over [0,5]", first element the start and last element the stop.
\<close>

definition linspace :: "real \<Rightarrow> real \<Rightarrow> nat \<Rightarrow> real list" where
  "linspace start stop num =
     map (\<lambda>j. start + real j * ((stop - start) / real (num - 1))) [0..<num]"

definition a_grid :: "real list" where
  "a_grid = linspace a_min a_max n_grid"

definition EPS :: real where
  "EPS = 1 / 10 ^ 8"

subsection \<open>Utility and terminal value (lines 34-43)\<close>

definition utility :: "real \<Rightarrow> real" where
  "utility c = (let c' = max c EPS in (c' powr (1 - gamma)) / (1 - gamma))"

definition V_old :: "real \<Rightarrow> real" where
  "V_old a3 = (let c3 = (1 + r) * a3 in utility c3)"

subsection \<open>Library collaborators\<close>

text \<open>
  \<open>scipy.optimize.minimize_scalar(objective, bounds=bounds, method='bounded')\<close> is
  library code. It is a parameter of the solvers: a function from the objective and the
  pair of bounds to the pair \<open>(result.x, result.fun)\<close>.
\<close>

type_synonym optimizer = "(real \<Rightarrow> real) \<Rightarrow> real \<times> real \<Rightarrow> real \<times> real"

text \<open>
  Modelled from the spec: \<open>numpy.interp\<close> is library code. The Interpolator contract is
  \<open>evaluate(table_row, grid, x)\<close>, "piecewise-linear between the two grid points
  bracketing x; for x below the grid minimum or above the grid maximum, returns the value
  at the nearest boundary grid point". The bracket of \<open>x\<close> is the pair of neighbours
  \<open>x0 \<le> x < x1\<close>, found by walking the grid from the left. The library raises on an
  empty grid and on a row whose length differs from the grid's; the callers below pass the
  grid \<open>a_grid\<close> and one row per grid point, and the statements about \<open>interp\<close> assume
  that shape.
\<close>

fun interp_between :: "real \<Rightarrow> real list \<Rightarrow> real list \<Rightarrow> real" where
  "interp_between x (x0 # x1 # xp) (y0 # y1 # fp) =
     (if x < x1 then y0 + (y1 - y0) / (x1 - x0) * (x - x0)
      else interp_between x (x1 # xp) (y1 # fp))"
| "interp_between x [x0] (y0 # fp) = y0"
| "interp_between x xp fp = 0"

definition interp :: "real \<Rightarrow> real list \<Rightarrow> real list \<Rightarrow> real" where
  "interp x xp fp =
     (if x < hd xp then hd fp
      else if last xp < x then last fp
      else interp_between x xp fp)"

subsection \<open>Middle-age stage (lines 46-82)\<close>

text \<open>
  The closure \<open>objective\<close> of \<open>solve_middle_age\<close> captures \<open>total_resources\<close>; here it
  is its first argument.
\<close>

definition middle_objective :: "real \<Rightarrow> real \<Rightarrow> real" where
  "middle_objective total_resources a3 =
     (let c2 = total_resources - a3 in
      if c2 \<le> EPS then 10 ^ 10
      else (let expected_V = V_old a3 in - (utility c2 + beta * expected_V)))"

text \<open>
  The body of the double loop for one pair \<open>(w2, a2)\<close>: the pair
  \<open>(best_value, best_a3)\<close> written to \<open>V_middle[i, j]\<close> and \<open>policy_middle[i, j]\<close>.
\<close>

definition solve_middle_cell :: "optimizer \<Rightarrow> real \<Rightarrow> real \<Rightarrow> real \<times> real" where
  "solve_middle_cell minimize_scalar w2 a2 =
     (let total_resources = (1 + r) * a2 + w2;
          bounds = (0, max 0 (total_resources - EPS))
      in if snd bounds > fst bounds
         then (let result = minimize_scalar (middle_objective total_resources) bounds
               in (- snd result, fst result))
         else (utility total_resources, 0))"

definition solve_middle_age :: "optimizer \<Rightarrow> real list list \<times> real list list" where
  "solve_middle_age minimize_scalar =
     (let cells = map (\<lambda>w2. map (\<lambda>a2. solve_middle_cell minimize_scalar w2 a2) a_grid)
                      productivity_types
      in (map (map fst) cells, map (map snd) cells))"

subsection \<open>Young-age stage (lines 85-124)\<close>

text \<open>
  The loop \<open>for k in range(len(productivity_types))\<close> that accumulates \<open>expected_V\<close>.
  The transition matrix is passed explicitly (the script reads the global \<open>P\<close>), so that
  statements about other matrices can be made.
\<close>

definition expected_V_middle :: "real list list \<Rightarrow> real list list \<Rightarrow> nat \<Rightarrow> real \<Rightarrow> real" where
  "expected_V_middle Pm V_middle i a2 =
     fold (\<lambda>k expected_V. expected_V + Pm ! i ! k * interp a2 a_grid (V_middle ! k))
          [0..<length productivity_types] 0"

definition young_objective ::
  "real list list \<Rightarrow> real list list \<Rightarrow> nat \<Rightarrow> real \<Rightarrow> real \<Rightarrow> real" where
  "young_objective Pm V_middle i total_resources a2 =
     (let c1 = total_resources - a2 in
      if c1 \<le> EPS then 10 ^ 10
      else (let expected_V = expected_V_middle Pm V_middle i a2
            in - (utility c1 + beta * expected_V)))"

definition solve_young_cell ::
  "optimizer \<Rightarrow> real list list \<Rightarrow> real list list \<Rightarrow> nat \<Rightarrow> real \<Rightarrow> real \<Rightarrow> real \<times> real" where
  "solve_young_cell minimize_scalar Pm V_middle i w1 a1 =
     (let total_resources = (1 + r) * a1 + w1;
          bounds = (0, max 0 (total_resources - EPS))
      in if snd bounds > fst bounds
         then (let result = minimize_scalar (young_objective Pm V_middle i total_resources) bounds
               in (- snd result, fst result))
         else (utility total_resources, 0))"

definition solve_young_age ::
  "optimizer \<Rightarrow> real list list \<Rightarrow> real list list \<Rightarrow> real list list \<times> real list list" where
  "solve_young_age minimize_scalar Pm V_middle =
     (let cells = map (\<lambda>i. map (\<lambda>a1. solve_young_cell minimize_scalar Pm V_middle i
                                        (productivity_types ! i) a1) a_grid)
                      [0..<length productivity_types]
      in (map (map fst) cells, map (map snd) cells))"

subsection \<open>The module's main sequence (lines 127-132)\<close>

text \<open>
  The parameters are set at module level and the two solvers are called in sequence. The
  outcome is written as a sum so that a configuration error could be told from a result:
  the script has no statement that raises and no check of its parameters, so its outcome
  is always the four tables.
\<close>

datatype error = ConfigurationError

definition solve_model ::
  "optimizer \<Rightarrow> real list list \<Rightarrow>
   error + (real list list \<times> real list list) \<times> (real list list \<times> real list list)" where
  "solve_model minimize_scalar Pm =
     (let middle = solve_middle_age minimize_scalar;
          young = solve_young_age minimize_scalar Pm (fst middle)
      in Inr (middle, young))"

subsection \<open>Double-precision arithmetic at the upper bound\<close>

text \<open>
  Python floats and numpy's float64 are IEEE 754 binary64 numbers: a literal and the result
  of a subtraction are the exact value rounded to the nearest number with a 53-bit
  significand, ties to the even one. \<open>round_double\<close> is that rounding for values in the
  normal range (no overflow and no subnormal numbers, which do not occur below). It is used
  for the one place where rounding decides a branch: the test \<open>c <= EPS\<close> of the
  objectives at the upper bound \<open>bounds[1] = max(0, total_resources - EPS)\<close>.
\<close>

definition round_half_even :: "real \<Rightarrow> int" where
  "round_half_even x =
     (let n = \<lfloor>x\<rfloor>; d = x - of_int n in
      if d < 1 / 2 then n
      else if 1 / 2 < d then n + 1
      else if even n then n else n + 1)"

definition round_double :: "real \<Rightarrow> real" where
  "round_double x =
     (if x = 0 then 0
      else (let e = \<lfloor>log 2 \<bar>x\<bar>\<rfloor>; ulp = 2 powi (e - 52)
            in of_int (round_half_even (x / ulp)) * ulp))"

definition EPS_double :: real where
  "EPS_double = round_double (1 / 10 ^ 8)"

definition upper_bound_double :: "real \<Rightarrow> real" where
  "upper_bound_double total_resources = max 0 (round_double (total_resources - EPS_double))"

definition consumption_double :: "real \<Rightarrow> real \<Rightarrow> real" where
  "consumption_double total_resources a = round_double (total_resources - a)"

definition penalty_branch_double :: "real \<Rightarrow> real \<Rightarrow> bool" where
  "penalty_branch_double total_resources a = (consumption_double total_resources a \<le> EPS_double)"

subsection \<open>Specification-level notions used in the statements\<close>

text \<open>
  The maximisation objectives as the design document writes them: current utility plus
  the discounted continuation value, with no penalty branch.
\<close>

definition middle_value :: "real \<Rightarrow> real \<Rightarrow> real" where
  "middle_value total_resources a3 = utility (total_resources - a3) + beta * V_old a3"

definition young_value ::
  "real list list \<Rightarrow> real list list \<Rightarrow> nat \<Rightarrow> real \<Rightarrow> real \<Rightarrow> real" where
  "young_value Pm V_middle i total_resources a2 =
     utility (total_resources - a2) +
     beta * (\<Sum>k < length productivity_types. Pm ! i ! k * interp a2 a_grid (V_middle ! k))"

text \<open>
  Minimisers and maximisers of a function over a closed interval, as the design document
  speaks of them.
\<close>

definition minimizes_on :: "(real \<Rightarrow> real) \<Rightarrow> real \<Rightarrow> real \<Rightarrow> real \<Rightarrow> bool" where
  "minimizes_on f lo hi x = (lo \<le> x \<and> x \<le> hi \<and> (\<forall>y. lo \<le> y \<and> y \<le> hi \<longrightarrow> f x \<le> f y))"



definition respects_bounds :: "optimizer \<Rightarrow> bool" where
  "respects_bounds minimize_scalar =
     (\<forall>objective lo hi. lo < hi \<longrightarrow>
        lo \<le> fst (minimize_scalar objective (lo, hi)) \<and>
        fst (minimize_scalar objective (lo, hi)) \<le> hi)"

text \<open>
  The arrays the young stage indexes: \<open>P[i, k]\<close> and \<open>V_middle[k, :]\<close> are read for
  \<open>i, k < 3\<close>, and the interpolator takes rows as long as the grid. Outside such shapes
  the script would stop with an index or value error, so statements about the young stage
  are made for a 3 x 3 matrix and a table of 3 rows of 100 entries.
\<close>

definition matrix_shape :: "nat \<Rightarrow> nat \<Rightarrow> real list list \<Rightarrow> bool" where
  "matrix_shape m n A = (length A = m \<and> (\<forall>row \<in> set A. length row = n))"

text \<open>
  Both objectives have one shape: the penalty where consumption would not exceed \<open>EPS\<close>,
  and otherwise the negated sum of current utility and a continuation value that depends
  on the choice only.
\<close>

definition stage_objective :: "(real \<Rightarrow> real) \<Rightarrow> real \<Rightarrow> real \<Rightarrow> real" where
  "stage_objective continuation total_resources a =
     (if total_resources - a \<le> EPS then 10 ^ 10
      else - (utility (total_resources - a) + continuation a))"

text \<open>
  A middle-stage value table as \<open>solve_young_age\<close> expects it: one row per productivity
  type, one entry per grid point, and no entry below the negated penalty.
\<close>

definition table_above_penalty :: "real list list \<Rightarrow> bool" where
  "table_above_penalty V_middle =
     (length V_middle = length productivity_types \<and>
      (\<forall>row \<in> set V_middle. length row = length a_grid \<and> (\<forall>v \<in> set row. - (10 ^ 10) \<le> v)))"

text \<open>Concrete inputs, used to instantiate the statements.\<close>

definition zero_table :: "real list list" where
  "zero_table = replicate (length productivity_types) (replicate (length a_grid) 0)"

definition P_perturbed :: "real list list" where
  "P_perturbed = [[5000 / 10000, 2528 / 10000, 21 / 10000],
                  [1360 / 10000, 7281 / 10000, 1360 / 10000],
                  [21 / 10000, 2528 / 10000, 7451 / 10000]]"

definition midpoint_optimizer :: optimizer where
  "midpoint_optimizer objective bounds =
     (let x = (fst bounds + snd bounds) / 2 in (x, objective x))"

text \<open>
  The square root of \<open>beta / (1 + r)\<close>: with \<open>beta = 0.985 ^ 20\<close> and
  \<open>1 + r = 1.025 ^ 20\<close> it is the rational number \<open>(0.985 / 1.025) ^ 10\<close>.
\<close>

definition discount_ratio :: real where
  "discount_ratio = (985 / 1025) ^ 10"



section \<open>Verification\<close>

subsection \<open>Numerical facts about the parameters\<close>

lemma EPS_pos: "0 < EPS"
  by (simp add: EPS_def)

lemma beta_bounds: "73 / 100 < beta" "beta < 74 / 100"
  by (simp_all add: beta_def power_divide)

lemma r_bounds: "163 / 100 < 1 + r" "1 + r < 164 / 100"
  by (simp_all add: r_def power_divide)

subsection \<open>Utility\<close>

lemma utility_eq: "utility c = - (1 / max c EPS)"
proof -
  have "0 < max c EPS"
    using EPS_pos by (simp add: less_max_iff_disj)
  then have "max c EPS powr (- 1) = 1 / max c EPS"
    by (simp add: powr_minus_divide)
  then show ?thesis
    by (simp add: utility_def gamma_def Let_def)
qed

lemma utility_above_floor: "EPS \<le> c \<Longrightarrow> utility c = - (1 / c)"
  by (simp add: utility_eq max_def)

lemma utility_below_floor: "c \<le> EPS \<Longrightarrow> utility c = - (1 / EPS)"
  by (simp add: utility_eq max_def)

lemma utility_lower: "- (1 / EPS) \<le> utility c"
proof -
  have "1 / max c EPS \<le> 1 / EPS"
    using EPS_pos by (intro divide_left_mono) (simp_all add: less_max_iff_disj)
  then show ?thesis
    by (simp add: utility_eq)
qed

lemma utility_mono: "c2 \<le> c1 \<Longrightarrow> utility c2 \<le> utility c1"
proof -
  assume "c2 \<le> c1"
  then have "max c2 EPS \<le> max c1 EPS"
    by (simp add: max_def)
  moreover have "0 < max c2 EPS"
    using EPS_pos by (simp add: less_max_iff_disj)
  ultimately have "1 / max c1 EPS \<le> 1 / max c2 EPS"
    by (simp add: frac_le)
  then show ?thesis
    by (simp add: utility_eq)
qed

lemma utility_strict_mono: "EPS \<le> c2 \<Longrightarrow> c2 < c1 \<Longrightarrow> utility c2 < utility c1"
  using EPS_pos by (simp add: utility_above_floor frac_less2)

text \<open>
  Claim C5, as amended. The utility function is strictly increasing on consumption at or
  above the floor: for all \<open>c1 > c2 \<ge> EPS\<close>, \<open>utility c1 > utility c2\<close>. Every input at or
  below the floor, in particular every \<open>c \<le> 0\<close>, is floored and gives \<open>utility EPS\<close>; no
  input is an error. (Between 0 and the floor the function is constant, so it is not
  strictly increasing on all positive consumption.)
\<close>

theorem utility_increasing_above_floor:
  "(EPS \<le> c2 \<and> c2 < c1 \<longrightarrow> utility c2 < utility c1) \<and>
   (c \<le> EPS \<longrightarrow> utility c = utility EPS)"
  by (simp add: utility_strict_mono utility_below_floor)

theorem utility_increasing_above_floor_witness:
  "utility 1 < utility 2 \<and> utility (- 3) = utility EPS"
proof -
  have "EPS \<le> 1" "(1::real) < 2" "- 3 \<le> EPS"
    by (simp_all add: EPS_def)
  then show ?thesis
    using utility_increasing_above_floor [of 1 2 "- 3"] by simp
qed

theorem utility_flat_below_floor_counterexample:
  "(5 / 10 ^ 10 :: real) < 1 / 10 ^ 9 \<and> (0 :: real) < 5 / 10 ^ 10 \<and>
   \<not> utility (5 / 10 ^ 10) < utility (1 / 10 ^ 9)"
  by (simp add: utility_eq EPS_def)

subsection \<open>Terminal value\<close>

lemma V_old_eq: "V_old a = utility ((1 + r) * a)"
  by (simp add: V_old_def Let_def)

text \<open>
  Claim C6, as amended. \<open>V_old a\<close> equals \<open>utility ((1 + r) * a)\<close>. It is strictly increasing
  where the matured assets reach the floor: for all \<open>a1 < a2\<close> with \<open>(1 + r) * a1 \<ge> EPS\<close>,
  \<open>V_old a1 < V_old a2\<close>; and it is weakly increasing everywhere. (For assets so small that
  \<open>(1 + r) * a\<close> stays below the floor it is constant.)
\<close>

theorem V_old_increasing_above_floor:
  "V_old a = utility ((1 + r) * a) \<and>
   (EPS \<le> (1 + r) * a1 \<and> a1 < a2 \<longrightarrow> V_old a1 < V_old a2) \<and>
   (a1 \<le> a2 \<longrightarrow> V_old a1 \<le> V_old a2)"
proof -
  have pos: "0 < 1 + r"
    using r_bounds by simp
  have "V_old a1 < V_old a2" if "EPS \<le> (1 + r) * a1" "a1 < a2"
    using that pos by (simp add: V_old_eq utility_strict_mono)
  moreover have "V_old a1 \<le> V_old a2" if "a1 \<le> a2"
    using that pos by (simp add: V_old_eq utility_mono)
  ultimately show ?thesis
    by (simp add: V_old_eq)
qed

theorem V_old_increasing_above_floor_witness:
  "V_old 1 = utility ((1 + r) * 1) \<and> V_old 1 < V_old 2 \<and> V_old 1 \<le> V_old 2"
proof -
  have "EPS \<le> (1 + r) * 1"
    using r_bounds by (simp add: EPS_def)
  then show ?thesis
    using V_old_increasing_above_floor [of 1 1 2] by simp
qed

theorem V_old_flat_below_floor_counterexample:
  "(0 :: real) \<le> 0 \<and> (0 :: real) < 1 / 10 ^ 9 \<and> \<not> V_old 0 < V_old (1 / 10 ^ 9)"
proof -
  have "(1 + r) * (1 / 10 ^ 9) \<le> EPS"
    using r_bounds by (simp add: EPS_def)
  then show ?thesis
    by (simp add: V_old_eq utility_below_floor EPS_def)
qed

subsection \<open>The grid, the productivity types and the tables\<close>

lemma length_productivity_types: "length productivity_types = 3"
  by (simp add: productivity_types_def)

lemma length_a_grid: "length a_grid = 100"
  by (simp add: a_grid_def linspace_def n_grid_def)

lemma a_grid_nth: "j < 100 \<Longrightarrow> a_grid ! j = 5 * real j / 99"
  by (simp add: a_grid_def linspace_def n_grid_def a_min_def a_max_def)

lemma a_grid_nonneg: "j < 100 \<Longrightarrow> 0 \<le> a_grid ! j"
  by (simp add: a_grid_nth)

lemma a_grid_mono: "j1 \<le> j2 \<Longrightarrow> j2 < 100 \<Longrightarrow> a_grid ! j1 \<le> a_grid ! j2"
  by (simp add: a_grid_nth)

lemma less_three_cases: "i < 3 \<Longrightarrow> i = 0 \<or> i = 1 \<or> i = (2::nat)"
  by arith

lemma productivity_types_lower: "i < 3 \<Longrightarrow> 8027 / 10000 \<le> productivity_types ! i"
  using less_three_cases [of i] by (auto simp: productivity_types_def)

lemma one_plus_r_pos: "0 < 1 + r"
  using r_bounds by simp

lemma cell_resources_lower:
  assumes "i < 3" "j < 100"
  shows "8027 / 10000 \<le> (1 + r) * a_grid ! j + productivity_types ! i"
proof -
  have "0 \<le> (1 + r) * a_grid ! j"
    using assms one_plus_r_pos a_grid_nonneg by simp
  then show ?thesis
    using productivity_types_lower [OF assms(1)] by linarith
qed

lemma solve_middle_age_nth:
  assumes "i < 3" "j < 100"
  shows "fst (solve_middle_age opt) ! i ! j =
           fst (solve_middle_cell opt (productivity_types ! i) (a_grid ! j))"
    and "snd (solve_middle_age opt) ! i ! j =
           snd (solve_middle_cell opt (productivity_types ! i) (a_grid ! j))"
  using assms
  by (simp_all add: solve_middle_age_def Let_def length_productivity_types length_a_grid)

lemma solve_young_age_nth:
  assumes "i < 3" "j < 100"
  shows "fst (solve_young_age opt Pm Vm) ! i ! j =
           fst (solve_young_cell opt Pm Vm i (productivity_types ! i) (a_grid ! j))"
    and "snd (solve_young_age opt Pm Vm) ! i ! j =
           snd (solve_young_cell opt Pm Vm i (productivity_types ! i) (a_grid ! j))"
  using assms
  by (simp_all add: solve_young_age_def Let_def length_productivity_types length_a_grid)

lemma solve_age_shape:
  "length (fst (solve_middle_age opt)) = 3"
  "length (snd (solve_middle_age opt)) = 3"
  "length (fst (solve_young_age opt Pm Vm)) = 3"
  "length (snd (solve_young_age opt Pm Vm)) = 3"
  "i < 3 \<Longrightarrow> length (fst (solve_middle_age opt) ! i) = 100"
  "i < 3 \<Longrightarrow> length (snd (solve_middle_age opt) ! i) = 100"
  "i < 3 \<Longrightarrow> length (fst (solve_young_age opt Pm Vm) ! i) = 100"
  "i < 3 \<Longrightarrow> length (snd (solve_young_age opt Pm Vm) ! i) = 100"
  by (simp_all add: solve_middle_age_def solve_young_age_def Let_def
        length_productivity_types length_a_grid)

lemma solve_age_matrix_shape:
  "matrix_shape 3 100 (fst (solve_middle_age opt))"
  "matrix_shape 3 100 (snd (solve_middle_age opt))"
  "matrix_shape 3 100 (fst (solve_young_age opt Pm Vm))"
  "matrix_shape 3 100 (snd (solve_young_age opt Pm Vm))"
  by (simp_all add: matrix_shape_def solve_middle_age_def solve_young_age_def Let_def
        length_productivity_types length_a_grid)

lemma matrix_shape_P: "matrix_shape 3 3 P"
  by (simp add: matrix_shape_def P_def)

lemma matrix_shape_P_perturbed: "matrix_shape 3 3 P_perturbed"
  by (simp add: matrix_shape_def P_perturbed_def)

lemma matrix_shape_zero_table: "matrix_shape 3 100 zero_table"
  by (simp add: matrix_shape_def zero_table_def length_productivity_types length_a_grid)

subsection \<open>One cell of a stage\<close>

lemma solve_middle_cell_optimised:
  assumes "EPS < (1 + r) * a + w"
  shows "solve_middle_cell opt w a =
           (- snd (opt (middle_objective ((1 + r) * a + w)) (0, (1 + r) * a + w - EPS)),
            fst (opt (middle_objective ((1 + r) * a + w)) (0, (1 + r) * a + w - EPS)))"
  using assms by (simp add: solve_middle_cell_def Let_def max_def)

lemma solve_young_cell_optimised:
  assumes "EPS < (1 + r) * a + w"
  shows "solve_young_cell opt Pm Vm i w a =
           (- snd (opt (young_objective Pm Vm i ((1 + r) * a + w)) (0, (1 + r) * a + w - EPS)),
            fst (opt (young_objective Pm Vm i ((1 + r) * a + w)) (0, (1 + r) * a + w - EPS)))"
  using assms by (simp add: solve_young_cell_def Let_def max_def)

text \<open>
  Claim C7. In both stage solvers, a cell whose total resources \<open>(1 + r) * a + w\<close> do not
  exceed \<open>EPS\<close> is not passed to the optimiser and raises nothing: it records the policy 0
  and the value \<open>utility total_resources\<close>, whatever the optimiser would do. The tables
  are filled cell by cell, each entry from its own pair \<open>(w, a)\<close> only, so the other cells
  are computed as usual.
\<close>

theorem degenerate_cell_fallback:
  assumes "(1 + r) * a + w \<le> EPS"
  shows "solve_middle_cell minimize_scalar w a = (utility ((1 + r) * a + w), 0) \<and>
         solve_young_cell minimize_scalar Pm V_middle i w a = (utility ((1 + r) * a + w), 0) \<and>
         (\<forall>i < 3. \<forall>j < 100.
            (fst (solve_middle_age minimize_scalar) ! i ! j,
             snd (solve_middle_age minimize_scalar) ! i ! j) =
            solve_middle_cell minimize_scalar (productivity_types ! i) (a_grid ! j)) \<and>
         (\<forall>i < 3. \<forall>j < 100.
            (fst (solve_young_age minimize_scalar Pm V_middle) ! i ! j,
             snd (solve_young_age minimize_scalar Pm V_middle) ! i ! j) =
            solve_young_cell minimize_scalar Pm V_middle i (productivity_types ! i) (a_grid ! j))"
proof -
  have "solve_middle_cell minimize_scalar w a = (utility ((1 + r) * a + w), 0)"
    using assms by (simp add: solve_middle_cell_def Let_def max_def)
  moreover have "solve_young_cell minimize_scalar Pm V_middle i w a =
                   (utility ((1 + r) * a + w), 0)"
    using assms by (simp add: solve_young_cell_def Let_def max_def)
  ultimately show ?thesis
    by (simp add: solve_middle_age_nth solve_young_age_nth)
qed

theorem degenerate_cell_fallback_witness:
  "solve_middle_cell midpoint_optimizer 0 0 = (utility 0, 0) \<and>
   solve_young_cell midpoint_optimizer P zero_table 0 0 0 = (utility 0, 0)"
proof -
  have "(1 + r) * 0 + 0 \<le> EPS"
    by (simp add: EPS_def)
  from degenerate_cell_fallback [OF this, of midpoint_optimizer P zero_table 0]
  show ?thesis
    by simp
qed

subsection \<open>The penalty branch of the objectives\<close>

lemma middle_value_lower: "- (2 / EPS) < middle_value total_resources a"
proof -
  have "- (1 / EPS) \<le> utility (total_resources - a)" "- (1 / EPS) \<le> V_old a"
    by (simp_all add: utility_lower V_old_eq)
  moreover have "beta * (- (1 / EPS)) \<le> beta * V_old a"
    using beta_bounds \<open>- (1 / EPS) \<le> V_old a\<close> by (intro mult_left_mono) simp_all
  moreover have "- (1 / EPS) < beta * (- (1 / EPS))"
    using beta_bounds EPS_pos by (simp add: field_simps)
  ultimately show ?thesis
    by (simp add: middle_value_def)
qed

lemma middle_objective_feasible:
  "EPS < total_resources - a \<Longrightarrow>
     middle_objective total_resources a = - middle_value total_resources a"
  by (simp add: middle_objective_def middle_value_def Let_def)

subsection \<open>Policies stay within the bounds\<close>

lemma respects_bounds_midpoint: "respects_bounds midpoint_optimizer"
  by (simp add: respects_bounds_def midpoint_optimizer_def Let_def)

text \<open>
  Claim C3. Provided the optimiser returns a point within the bounds it is given, every
  cell \<open>(i, j)\<close> of both policy tables lies in \<open>[0, total_resources - EPS]\<close>, that is, the
  implied consumption \<open>total_resources - policy\<close> is at least \<open>EPS\<close>, where
  \<open>total_resources = (1 + r) * a_grid ! j + productivity_types ! i\<close>. (With the script's
  grid and productivity types every cell has \<open>total_resources > EPS\<close> and is optimised.)
  The young stage is run on any 3 x 3 matrix and any table of 3 rows of 100 entries.
\<close>

theorem policy_within_bounds:
  assumes "respects_bounds minimize_scalar"
    and "matrix_shape 3 3 Pm" "matrix_shape 3 100 V_middle"
    and "i < length productivity_types" "j < length a_grid"
  shows "0 \<le> snd (solve_middle_age minimize_scalar) ! i ! j \<and>
         snd (solve_middle_age minimize_scalar) ! i ! j
           \<le> (1 + r) * a_grid ! j + productivity_types ! i - EPS \<and>
         EPS \<le> (1 + r) * a_grid ! j + productivity_types ! i
                 - snd (solve_middle_age minimize_scalar) ! i ! j \<and>
         0 \<le> snd (solve_young_age minimize_scalar Pm V_middle) ! i ! j \<and>
         snd (solve_young_age minimize_scalar Pm V_middle) ! i ! j
           \<le> (1 + r) * a_grid ! j + productivity_types ! i - EPS \<and>
         EPS \<le> (1 + r) * a_grid ! j + productivity_types ! i
                 - snd (solve_young_age minimize_scalar Pm V_middle) ! i ! j"
proof -
  define tr where "tr = (1 + r) * a_grid ! j + productivity_types ! i"
  have ij: "i < 3" "j < 100"
    using assms(4,5) by (simp_all add: length_productivity_types length_a_grid)
  have "8027 / 10000 \<le> tr"
    unfolding tr_def by (rule cell_resources_lower [OF ij])
  then have big: "EPS < tr" and pos: "0 < tr - EPS"
    by (simp_all add: EPS_def)
  have m: "0 \<le> fst (minimize_scalar f (0, tr - EPS)) \<and>
           fst (minimize_scalar f (0, tr - EPS)) \<le> tr - EPS" for f
    using assms(1) pos unfolding respects_bounds_def by blast
  have pm: "snd (solve_middle_age minimize_scalar) ! i ! j =
              fst (minimize_scalar (middle_objective tr) (0, tr - EPS))"
    using big by (simp add: solve_middle_age_nth [OF ij] solve_middle_cell_optimised tr_def)
  have py: "snd (solve_young_age minimize_scalar Pm V_middle) ! i ! j =
              fst (minimize_scalar (young_objective Pm V_middle i tr) (0, tr - EPS))"
    using big by (simp add: solve_young_age_nth [OF ij] solve_young_cell_optimised tr_def)
  show ?thesis
    using m [of "middle_objective tr"] m [of "young_objective Pm V_middle i tr"]
    unfolding pm py tr_def [symmetric] by linarith
qed

theorem policy_within_bounds_witness:
  "0 \<le> snd (solve_middle_age midpoint_optimizer) ! 0 ! 0 \<and>
   snd (solve_middle_age midpoint_optimizer) ! 0 ! 0
     \<le> (1 + r) * a_grid ! 0 + productivity_types ! 0 - EPS \<and>
   0 \<le> snd (solve_young_age midpoint_optimizer P zero_table) ! 0 ! 0 \<and>
   snd (solve_young_age midpoint_optimizer P zero_table) ! 0 ! 0
     \<le> (1 + r) * a_grid ! 0 + productivity_types ! 0 - EPS"
proof -
  have "(0::nat) < length productivity_types" "(0::nat) < length a_grid"
    by (simp_all add: length_productivity_types length_a_grid)
  then show ?thesis
    using policy_within_bounds
            [OF respects_bounds_midpoint matrix_shape_P matrix_shape_zero_table, of 0 0]
    by simp
qed

subsection \<open>The interpolator\<close>

lemma sorted_wrt_less_hd_le_last:
  "sorted_wrt (<) (x0 # xp) \<Longrightarrow> (x0::real) \<le> last (x0 # xp)"
  by (induction xp arbitrary: x0) (auto simp: less_imp_le)


lemma interp_between_on_grid:
  "sorted_wrt (<) xp \<Longrightarrow> length fp = length xp \<Longrightarrow> j < length xp \<Longrightarrow>
     interp_between (xp ! j) xp fp = fp ! j"
proof (induction xp arbitrary: fp j)
  case Nil
  then show ?case by simp
next
  case (Cons x0 xp)
  then obtain y0 fp' where fp: "fp = y0 # fp'"
    by (cases fp) simp_all
  show ?case
  proof (cases xp)
    case Nil
    then show ?thesis
      using Cons.prems fp by simp
  next
    case (Cons x1 xp')
    then obtain y1 fp'' where fp': "fp' = y1 # fp''"
      using Cons.prems fp by (cases fp') simp_all
    show ?thesis
    proof (cases j)
      case 0
      then show ?thesis
        using Cons.prems fp fp' \<open>xp = x1 # xp'\<close> by simp
    next
      case (Suc j')
      have j': "j' < length xp"
        using Cons.prems Suc by simp
      have "x1 \<le> xp ! j'"
      proof (cases j')
        case 0
        then show ?thesis using \<open>xp = x1 # xp'\<close> by simp
      next
        case (Suc k)
        then show ?thesis
          using Cons.prems(1) j' \<open>xp = x1 # xp'\<close> by (auto simp: less_imp_le)
      qed
      then have "\<not> xp ! j' < x1"
        by simp
      moreover have "interp_between (xp ! j') xp fp' = fp' ! j'"
        using Cons.IH [of fp' j'] Cons.prems fp j' by simp
      ultimately show ?thesis
        using Suc fp fp' \<open>xp = x1 # xp'\<close> by simp
    qed
  qed
qed


lemma sorted_wrt_less_nth_bounds:
  assumes "sorted_wrt (<) xp" "j < length xp"
  shows "hd xp \<le> (xp ! j :: real)" "xp ! j \<le> last xp"
proof -
  have ne: "xp \<noteq> []"
    using assms(2) by auto
  have "xp ! 0 \<le> xp ! j"
    using assms by (cases "j = 0") (auto simp: sorted_wrt_iff_nth_less less_imp_le)
  then show "hd xp \<le> xp ! j"
    using ne by (simp add: hd_conv_nth)
  have "xp ! j \<le> xp ! (length xp - 1)"
    using assms by (cases "j = length xp - 1") (auto simp: sorted_wrt_iff_nth_less less_imp_le)
  then show "xp ! j \<le> last xp"
    using ne by (simp add: last_conv_nth)
qed

lemma interp_on_grid:
  assumes "sorted_wrt (<) xp" "length fp = length xp" "j < length xp"
  shows "interp (xp ! j) xp fp = fp ! j"
  using sorted_wrt_less_nth_bounds [OF assms(1,3)] interp_between_on_grid [OF assms]
  by (simp add: interp_def)

text \<open>
  Claim C9. Over a strictly increasing grid (such as \<open>a_grid\<close>) and a table row with one
  entry per grid point, the interpolator returns exactly the tabulated value at every grid
  point, the first entry below the grid minimum and the last entry above the grid maximum.
\<close>

theorem interp_exact_on_grid_and_flat_outside:
  assumes "sorted_wrt (<) grid" "length row = length grid" "grid \<noteq> []"
  shows "(\<forall>j < length grid. interp (grid ! j) grid row = row ! j) \<and>
         (\<forall>x. x < hd grid \<longrightarrow> interp x grid row = hd row) \<and>
         (\<forall>x. last grid < x \<longrightarrow> interp x grid row = last row)"
proof -
  have "hd grid \<le> last grid"
    using assms(1,3) sorted_wrt_less_hd_le_last [of "hd grid" "tl grid"] by simp
  then have "interp x grid row = last row" if "last grid < x" for x
    using that by (simp add: interp_def)
  moreover have "interp x grid row = hd row" if "x < hd grid" for x
    using that by (simp add: interp_def)
  moreover have "interp (grid ! j) grid row = row ! j" if "j < length grid" for j
    using that assms by (simp add: interp_on_grid)
  ultimately show ?thesis
    by blast
qed

lemma a_grid_strictly_sorted: "sorted_wrt (<) a_grid"
  by (simp add: sorted_wrt_iff_nth_less length_a_grid a_grid_nth)

theorem interp_exact_on_grid_and_flat_outside_witness:
  "interp (a_grid ! 1) a_grid (map (\<lambda>a. a * a) a_grid) = map (\<lambda>a. a * a) a_grid ! 1 \<and>
   interp (- 1) a_grid (map (\<lambda>a. a * a) a_grid) = hd (map (\<lambda>a. a * a) a_grid) \<and>
   interp 6 a_grid (map (\<lambda>a. a * a) a_grid) = last (map (\<lambda>a. a * a) a_grid)"
proof -
  have ne: "a_grid \<noteq> []"
    using length_a_grid by auto
  have "hd a_grid = a_grid ! 0" "last a_grid = a_grid ! 99"
    using ne by (simp_all add: hd_conv_nth last_conv_nth length_a_grid)
  then have "- 1 < hd a_grid" "last a_grid < 6"
    by (simp_all add: a_grid_nth)
  moreover have "(1::nat) < length a_grid"
    by (simp add: length_a_grid)
  ultimately show ?thesis
    using interp_exact_on_grid_and_flat_outside
            [OF a_grid_strictly_sorted _ ne, of "map (\<lambda>a. a * a) a_grid"]
    by simp
qed

subsection \<open>No check of the configuration\<close>

lemma expected_V_middle_sum:
  "expected_V_middle Pm V_middle i a =
     (\<Sum>k < length productivity_types. Pm ! i ! k * interp a a_grid (V_middle ! k))"
  by (simp add: expected_V_middle_def length_productivity_types upt_rec eval_nat_numeral)

lemma expected_V_middle_three:
  "expected_V_middle Pm Vm i a =
     Pm ! i ! 0 * interp a a_grid (Vm ! 0) + Pm ! i ! 1 * interp a a_grid (Vm ! 1) +
     Pm ! i ! 2 * interp a a_grid (Vm ! 2)"
  by (simp add: expected_V_middle_sum length_productivity_types eval_nat_numeral)

lemma solve_model_returns:
  "solve_model opt Pm =
     Inr (solve_middle_age opt, solve_young_age opt Pm (fst (solve_middle_age opt)))"
  by (simp add: solve_model_def Let_def)

text \<open>
  Claim C8, as amended. The script makes no check of its configuration. For every 3 x 3
  transition matrix, whether or not its rows sum to 1, the main sequence raises no
  ConfigurationError: it returns the tables of the two stages, each of 3 rows of 100
  entries, and the entries of the matrix enter the expected continuation value as they
  are given (nothing is normalised or corrected).
\<close>

theorem no_configuration_check:
  assumes "matrix_shape 3 3 Pm"
  shows "solve_model minimize_scalar Pm =
           Inr (solve_middle_age minimize_scalar,
                solve_young_age minimize_scalar Pm (fst (solve_middle_age minimize_scalar))) \<and>
         solve_model minimize_scalar Pm \<noteq> Inl ConfigurationError \<and>
         matrix_shape 3 100 (fst (solve_middle_age minimize_scalar)) \<and>
         matrix_shape 3 100 (snd (solve_middle_age minimize_scalar)) \<and>
         matrix_shape 3 100
           (fst (solve_young_age minimize_scalar Pm (fst (solve_middle_age minimize_scalar)))) \<and>
         matrix_shape 3 100
           (snd (solve_young_age minimize_scalar Pm (fst (solve_middle_age minimize_scalar)))) \<and>
         (\<forall>i a. expected_V_middle Pm (fst (solve_middle_age minimize_scalar)) i a =
                  Pm ! i ! 0 * interp a a_grid (fst (solve_middle_age minimize_scalar) ! 0) +
                  Pm ! i ! 1 * interp a a_grid (fst (solve_middle_age minimize_scalar) ! 1) +
                  Pm ! i ! 2 * interp a a_grid (fst (solve_middle_age minimize_scalar) ! 2))"
  by (simp add: solve_model_returns solve_age_matrix_shape expected_V_middle_three)

theorem no_configuration_check_witness:
  "solve_model midpoint_optimizer P_perturbed \<noteq> Inl ConfigurationError \<and>
   matrix_shape 3 100
     (fst (solve_young_age midpoint_optimizer P_perturbed
            (fst (solve_middle_age midpoint_optimizer)))) \<and>
   expected_V_middle P_perturbed (fst (solve_middle_age midpoint_optimizer)) 0 0 =
     P_perturbed ! 0 ! 0 * interp 0 a_grid (fst (solve_middle_age midpoint_optimizer) ! 0) +
     P_perturbed ! 0 ! 1 * interp 0 a_grid (fst (solve_middle_age midpoint_optimizer) ! 1) +
     P_perturbed ! 0 ! 2 * interp 0 a_grid (fst (solve_middle_age midpoint_optimizer) ! 2)"
  using no_configuration_check [OF matrix_shape_P_perturbed, of midpoint_optimizer]
  by blast

theorem row_sum_not_checked_counterexample:
  "sum_list (P_perturbed ! 0) = 7549 / 10000 \<and>
   solve_model midpoint_optimizer P_perturbed =
     Inr (solve_middle_age midpoint_optimizer,
          solve_young_age midpoint_optimizer P_perturbed
            (fst (solve_middle_age midpoint_optimizer))) \<and>
   solve_model midpoint_optimizer P_perturbed \<noteq> Inl ConfigurationError"
  by (simp add: P_perturbed_def solve_model_returns)

subsection \<open>The middle-age problem in closed form\<close>

lemma discount_ratio_bounds: "67 / 100 < discount_ratio" "discount_ratio < 68 / 100"
  by (simp_all add: discount_ratio_def power_divide)

lemma beta_eq: "beta = discount_ratio\<^sup>2 * (1 + r)"
  by (simp add: beta_def discount_ratio_def r_def power_divide)

lemma reciprocal_sum_split:
  fixes x y q :: real
  assumes "0 < x" "0 < y"
  shows "1 / x + q\<^sup>2 / y = (1 + q)\<^sup>2 / (x + y) + (y - q * x)\<^sup>2 / (x * y * (x + y))"
proof -
  have den: "x * y * (x + y) \<noteq> 0" "x + y \<noteq> 0"
    using assms by simp_all
  have "1 / x + q\<^sup>2 / y = (y + q\<^sup>2 * x) * (x + y) / (x * y * (x + y))"
    using assms by (simp add: add_frac_eq mult.commute)
  also have "(y + q\<^sup>2 * x) * (x + y) = (1 + q)\<^sup>2 * (x * y) + (y - q * x)\<^sup>2"
    by (simp add: algebra_simps power2_eq_square)
  also have "\<dots> / (x * y * (x + y)) =
               (1 + q)\<^sup>2 * (x * y) / (x * y * (x + y)) + (y - q * x)\<^sup>2 / (x * y * (x + y))"
    by (simp add: add_divide_distrib)
  also have "(1 + q)\<^sup>2 * (x * y) / (x * y * (x + y)) = (1 + q)\<^sup>2 / (x + y)"
    using assms by simp
  finally show ?thesis .
qed

lemma pos_of_scaled_ge_EPS: "EPS \<le> (1 + r) * a \<Longrightarrow> 0 < a"
proof -
  assume "EPS \<le> (1 + r) * a"
  then have "0 < (1 + r) * a"
    using EPS_pos by linarith
  then show "0 < a"
    using one_plus_r_pos by (simp add: zero_less_mult_iff)
qed

lemma middle_value_unfloored:
  assumes "EPS \<le> tr - a" "EPS \<le> (1 + r) * a"
  shows "middle_value tr a = - (1 / (tr - a) + discount_ratio\<^sup>2 / a)"
proof -
  have "0 < a"
    using assms(2) by (rule pos_of_scaled_ge_EPS)
  have "beta / ((1 + r) * a) = (1 + r) * discount_ratio\<^sup>2 / ((1 + r) * a)"
    by (simp add: beta_eq mult.commute)
  also have "\<dots> = discount_ratio\<^sup>2 / a"
    using one_plus_r_pos by simp
  finally have "beta / ((1 + r) * a) = discount_ratio\<^sup>2 / a" .
  then show ?thesis
    using assms by (simp add: middle_value_def V_old_eq utility_above_floor)
qed

lemma middle_value_floored:
  assumes "EPS \<le> tr - a" "(1 + r) * a \<le> EPS"
  shows "middle_value tr a = - (1 / (tr - a) + beta / EPS)"
  using assms by (simp add: middle_value_def V_old_eq utility_above_floor utility_below_floor)

lemma middle_value_closed_form_bound:
  assumes "6 * EPS \<le> tr" "0 \<le> a" "a \<le> tr - EPS"
  shows "middle_value tr a \<le> - ((1 + discount_ratio)\<^sup>2 / tr)"
    and "middle_value tr a = - ((1 + discount_ratio)\<^sup>2 / tr) \<Longrightarrow>
           a = discount_ratio * tr / (1 + discount_ratio)"
proof -
  have tr: "0 < tr"
    using assms(1) EPS_pos by linarith
  have x: "0 < tr - a" "EPS \<le> tr - a"
    using assms(3) EPS_pos by linarith+
  have both: "middle_value tr a \<le> - ((1 + discount_ratio)\<^sup>2 / tr) \<and>
        (middle_value tr a = - ((1 + discount_ratio)\<^sup>2 / tr) \<longrightarrow>
           a = discount_ratio * tr / (1 + discount_ratio))"
  proof (cases "EPS \<le> (1 + r) * a")
    case True
    then have a: "0 < a"
      by (rule pos_of_scaled_ge_EPS)
    define d where "d = (a - discount_ratio * (tr - a))\<^sup>2 / ((tr - a) * a * tr)"
    have "1 / (tr - a) + discount_ratio\<^sup>2 / a = (1 + discount_ratio)\<^sup>2 / tr + d"
      using reciprocal_sum_split [OF x(1) a, of discount_ratio] by (simp add: d_def)
    then have mv: "middle_value tr a = - ((1 + discount_ratio)\<^sup>2 / tr) - d"
      using middle_value_unfloored [OF x(2) True] by simp
    have den: "0 < (tr - a) * a * tr"
      using x(1) a tr by simp
    then have "0 \<le> d"
      by (simp add: d_def)
    moreover have "a = discount_ratio * tr / (1 + discount_ratio)" if "d = 0"
    proof -
      have "(a - discount_ratio * (tr - a))\<^sup>2 = 0 \<or> (tr - a) * a * tr = 0"
        using that unfolding d_def by (simp only: divide_eq_0_iff)
      then have "a - discount_ratio * (tr - a) = 0"
        using x(1) a tr by auto
      then have "a * (1 + discount_ratio) = discount_ratio * tr"
        by (simp add: algebra_simps)
      then show ?thesis
        using discount_ratio_bounds by (simp add: field_simps)
    qed
    ultimately show ?thesis
      using mv by auto
  next
    case False
    then have mv: "middle_value tr a = - (1 / (tr - a) + beta / EPS)"
      using middle_value_floored [OF x(2)] by simp
    have "(1 + discount_ratio)\<^sup>2 < 3"
    proof -
      have "(1 + discount_ratio)\<^sup>2 \<le> (1 + 68 / 100)\<^sup>2"
        using discount_ratio_bounds by (intro power_mono) simp_all
      then show ?thesis
        by (simp add: power2_eq_square)
    qed
    then have "(1 + discount_ratio)\<^sup>2 / tr < 3 / tr"
      using tr by (simp add: divide_strict_right_mono)
    also have "3 / tr \<le> 3 / (6 * EPS)"
      using assms(1) EPS_pos by (intro divide_left_mono) simp_all
    also have "3 / (6 * EPS) < beta / EPS"
      using beta_bounds EPS_pos by (simp add: field_simps)
    finally have "(1 + discount_ratio)\<^sup>2 / tr < 1 / (tr - a) + beta / EPS"
      using x(1) by (simp add: add_pos_nonneg less_le_trans pos_add_strict)
    then show ?thesis
      using mv by simp
  qed
  show "middle_value tr a \<le> - ((1 + discount_ratio)\<^sup>2 / tr)"
    using both by simp
  show "middle_value tr a = - ((1 + discount_ratio)\<^sup>2 / tr) \<Longrightarrow>
           a = discount_ratio * tr / (1 + discount_ratio)"
    using both by simp
qed

lemma closed_form_feasible:
  assumes "6 * EPS \<le> tr"
  shows "0 \<le> discount_ratio * tr / (1 + discount_ratio)"
    and "discount_ratio * tr / (1 + discount_ratio) < tr - EPS"
    and "EPS \<le> (1 + r) * (discount_ratio * tr / (1 + discount_ratio))"
proof -
  have tr: "0 < tr"
    using assms EPS_pos by linarith
  have q: "0 < discount_ratio" "0 < 1 + discount_ratio"
    using discount_ratio_bounds by simp_all
  show "0 \<le> discount_ratio * tr / (1 + discount_ratio)"
    using tr q by simp
  have "EPS * (1 + discount_ratio) < tr"
  proof -
    have "EPS * (1 + discount_ratio) \<le> EPS * 2"
      using discount_ratio_bounds EPS_pos by (intro mult_left_mono) simp_all
    then show ?thesis
      using assms EPS_pos by linarith
  qed
  then show "discount_ratio * tr / (1 + discount_ratio) < tr - EPS"
    using q by (simp add: field_simps)
  have "EPS * (1 + discount_ratio) \<le> EPS * 2"
    using discount_ratio_bounds EPS_pos by (intro mult_left_mono) simp_all
  moreover have "1 * (6 * EPS) \<le> ((1 + r) * discount_ratio) * tr"
  proof -
    have "(163 / 100) * (67 / 100) \<le> (1 + r) * discount_ratio"
      using r_bounds discount_ratio_bounds by (intro mult_mono) simp_all
    then have "1 \<le> (1 + r) * discount_ratio"
      by simp
    then show ?thesis
      using assms EPS_pos by (intro mult_mono) simp_all
  qed
  ultimately have "EPS * (1 + discount_ratio) \<le> (1 + r) * discount_ratio * tr"
    using EPS_pos by linarith
  then show "EPS \<le> (1 + r) * (discount_ratio * tr / (1 + discount_ratio))"
    using q by (simp add: field_simps)
qed

lemma middle_value_at_closed_form:
  assumes "6 * EPS \<le> tr"
  shows "middle_value tr (discount_ratio * tr / (1 + discount_ratio)) =
           - ((1 + discount_ratio)\<^sup>2 / tr)"
proof -
  define a where "a = discount_ratio * tr / (1 + discount_ratio)"
  have tr: "0 < tr"
    using assms EPS_pos by linarith
  have q: "0 < discount_ratio" "0 < 1 + discount_ratio"
    using discount_ratio_bounds by simp_all
  have f: "0 \<le> a" "a < tr - EPS" "EPS \<le> (1 + r) * a"
    unfolding a_def using closed_form_feasible [OF assms] by simp_all
  have a: "0 < a"
    unfolding a_def using tr q by simp
  have x: "0 < tr - a"
    using f(2) EPS_pos by linarith
  have "a - discount_ratio * (tr - a) = 0"
    using q by (simp add: a_def field_simps)
  then have "1 / (tr - a) + discount_ratio\<^sup>2 / a = (1 + discount_ratio)\<^sup>2 / tr"
    using reciprocal_sum_split [OF x a, of discount_ratio] by simp
  moreover have "middle_value tr a = - (1 / (tr - a) + discount_ratio\<^sup>2 / a)"
    using f by (intro middle_value_unfloored) simp_all
  ultimately show ?thesis
    by (simp add: a_def)
qed

lemma closed_form_below_penalty:
  assumes "6 * EPS \<le> tr"
  shows "(1 + discount_ratio)\<^sup>2 / tr < 10 ^ 10"
proof -
  have tr: "0 < tr"
    using assms EPS_pos by linarith
  have "(1 + discount_ratio)\<^sup>2 \<le> (1 + 68 / 100)\<^sup>2"
    using discount_ratio_bounds by (intro power_mono) simp_all
  then have "(1 + discount_ratio)\<^sup>2 \<le> 3"
    by (simp add: power2_eq_square)
  then have "(1 + discount_ratio)\<^sup>2 / tr \<le> 3 / tr"
    using tr by (simp add: divide_right_mono)
  also have "3 / tr \<le> 3 / (6 * EPS)"
    using assms EPS_pos by (intro divide_left_mono) simp_all
  also have "3 / (6 * EPS) < 10 ^ 10"
    by (simp add: EPS_def)
  finally show ?thesis .
qed

lemma middle_objective_at_closed_form:
  assumes "6 * EPS \<le> tr"
  shows "middle_objective tr (discount_ratio * tr / (1 + discount_ratio)) =
           (1 + discount_ratio)\<^sup>2 / tr"
  using closed_form_feasible(2) [OF assms] middle_value_at_closed_form [OF assms]
  by (simp add: middle_objective_feasible)

lemma middle_objective_lower:
  assumes "6 * EPS \<le> tr" "0 \<le> y" "y \<le> tr - EPS"
  shows "(1 + discount_ratio)\<^sup>2 / tr \<le> middle_objective tr y"
proof (cases "tr - y \<le> EPS")
  case True
  then have "middle_objective tr y = 10 ^ 10"
    by (simp add: middle_objective_def Let_def)
  then show ?thesis
    using closed_form_below_penalty [OF assms(1)] by simp
next
  case False
  then show ?thesis
    using middle_value_closed_form_bound(1) [OF assms]
    by (simp add: middle_objective_feasible)
qed

lemma cell_resources_not_degenerate:
  assumes "i < 3" "j < 100"
  shows "6 * EPS \<le> (1 + r) * a_grid ! j + productivity_types ! i"
  using cell_resources_lower [OF assms] by (simp add: EPS_def)

subsection \<open>The common shape of the two objectives\<close>

lemma middle_objective_stage:
  "middle_objective tr = stage_objective (\<lambda>a. beta * V_old a) tr"
  by (rule ext) (simp add: middle_objective_def stage_objective_def Let_def)

lemma young_objective_stage:
  "young_objective Pm Vm i tr = stage_objective (\<lambda>a. beta * expected_V_middle Pm Vm i a) tr"
  by (rule ext) (simp add: young_objective_def stage_objective_def Let_def)

lemma stage_objective_feasible:
  "EPS < tr - a \<Longrightarrow> stage_objective C tr a = - (utility (tr - a) + C a)"
  by (simp add: stage_objective_def)

lemma stage_objective_penalty:
  "tr - a \<le> EPS \<Longrightarrow> stage_objective C tr a = 10 ^ 10"
  by (simp add: stage_objective_def)

text \<open>
  A minimiser of the penalised objective is not at a penalised point, as long as the
  continuation value at 0 is above \<open>1 / EPS - 10 ^ 10\<close>.
\<close>

lemma stage_minimizer_feasible:
  assumes "EPS < tr" "1 / EPS - 10 ^ 10 < C 0"
    and "0 \<le> x" "x \<le> tr - EPS"
    and "\<And>y. 0 \<le> y \<Longrightarrow> y \<le> tr - EPS \<Longrightarrow> stage_objective C tr x \<le> stage_objective C tr y"
  shows "EPS < tr - x"
proof (rule ccontr)
  assume "\<not> EPS < tr - x"
  then have "stage_objective C tr x = 10 ^ 10"
    by (simp add: stage_objective_penalty)
  moreover have "stage_objective C tr x \<le> stage_objective C tr 0"
    using assms(1) by (intro assms(5)) simp_all
  moreover have "stage_objective C tr 0 = - (utility tr + C 0)"
    using assms(1) stage_objective_feasible [of tr 0 C] by simp
  moreover have "- (1 / EPS) \<le> utility tr"
    by (rule utility_lower)
  ultimately show False
    using assms(2) by linarith
qed

text \<open>
  Monotone comparative statics: with more resources, a minimiser of the penalised objective
  cannot be smaller. Only the current-utility term depends on the resources, and it has
  strictly increasing differences.
\<close>

lemma reciprocal_differences:
  fixes c11 c12 c21 c22 :: real
  assumes "0 < c11" "c11 < c12" "c11 < c21" "c11 + c22 = c12 + c21"
  shows "1 / c12 + 1 / c21 < 1 / c11 + 1 / c22"
proof -
  define d where "d = c12 - c11"
  have d: "0 < d" "c12 = c11 + d" "c22 = c21 + d"
    using assms by (simp_all add: d_def)
  have pos: "0 < c21" "0 < c11 + d" "0 < c21 + d"
    using assms d by linarith+
  have "c11 * (c11 + d) < c21 * (c21 + d)"
    using assms(1,3) d(1) by (intro mult_strict_mono) simp_all
  then have "d / (c21 * (c21 + d)) < d / (c11 * (c11 + d))"
    using d(1) assms(1) pos by (intro divide_strict_left_mono) simp_all
  moreover have "1 / c11 - 1 / (c11 + d) = d / (c11 * (c11 + d))"
    using assms(1) pos by (simp add: field_simps)
  moreover have "1 / c21 - 1 / (c21 + d) = d / (c21 * (c21 + d))"
    using pos by (simp add: field_simps)
  ultimately show ?thesis
    unfolding d(2,3) by linarith
qed

lemma stage_minimizer_mono:
  assumes "EPS < tr1" "tr1 < tr2" "1 / EPS - 10 ^ 10 < C 0"
    and x1: "0 \<le> x1" "x1 \<le> tr1 - EPS"
      "\<And>y. 0 \<le> y \<Longrightarrow> y \<le> tr1 - EPS \<Longrightarrow> stage_objective C tr1 x1 \<le> stage_objective C tr1 y"
    and x2: "0 \<le> x2" "x2 \<le> tr2 - EPS"
      "\<And>y. 0 \<le> y \<Longrightarrow> y \<le> tr2 - EPS \<Longrightarrow> stage_objective C tr2 x2 \<le> stage_objective C tr2 y"
  shows "x1 \<le> x2"
proof (rule ccontr)
  assume "\<not> x1 \<le> x2"
  then have less: "x2 < x1"
    by simp
  have c11: "EPS < tr1 - x1"
    using assms(1,3) x1 by (rule stage_minimizer_feasible)
  have c12: "EPS < tr1 - x2" and c21: "EPS < tr2 - x1" and c22: "EPS < tr2 - x2"
    using c11 less assms(2) by linarith+
  have "stage_objective C tr1 x1 \<le> stage_objective C tr1 x2"
    using x2(1) less x1(2) by (intro x1(3)) simp_all
  then have a: "utility (tr1 - x2) + C x2 \<le> utility (tr1 - x1) + C x1"
    using c11 c12 by (simp add: stage_objective_feasible)
  have "stage_objective C tr2 x2 \<le> stage_objective C tr2 x1"
    using x1(1) c21 by (intro x2(3)) simp_all
  then have b: "utility (tr2 - x1) + C x1 \<le> utility (tr2 - x2) + C x2"
    using c21 c22 by (simp add: stage_objective_feasible)
  have u: "utility (tr1 - x1) = - (1 / (tr1 - x1))" "utility (tr1 - x2) = - (1 / (tr1 - x2))"
    "utility (tr2 - x1) = - (1 / (tr2 - x1))" "utility (tr2 - x2) = - (1 / (tr2 - x2))"
    using c11 c12 c21 c22 by (simp_all add: utility_above_floor)
  have "1 / (tr1 - x2) + 1 / (tr2 - x1) < 1 / (tr1 - x1) + 1 / (tr2 - x2)"
    using c11 EPS_pos less assms(2) by (intro reciprocal_differences) simp_all
  then show False
    using a b unfolding u by linarith
qed

subsection \<open>Continuation values at zero savings\<close>

lemma middle_continuation_at_zero: "1 / EPS - 10 ^ 10 < beta * V_old 0"
proof -
  have "V_old 0 = - (1 / EPS)"
    using EPS_pos by (simp add: V_old_eq utility_below_floor)
  moreover have "beta * (1 / EPS) < 1 * (1 / EPS)"
    using beta_bounds EPS_pos by (intro mult_strict_right_mono) simp_all
  ultimately show ?thesis
    by (simp add: EPS_def)
qed

lemma P_row_facts:
  assumes "i < 3"
  shows "0 \<le> P ! i ! 0" "0 \<le> P ! i ! 1" "0 \<le> P ! i ! 2"
    "P ! i ! 0 + P ! i ! 1 + P ! i ! 2 \<le> 10001 / 10000"
  using less_three_cases [OF assms] by (auto simp: P_def)

lemma table_above_penalty_row:
  assumes "table_above_penalty Vm" "k < 3"
  shows "length (Vm ! k) = length a_grid" "j < 100 \<Longrightarrow> - (10 ^ 10) \<le> Vm ! k ! j"
proof -
  have "Vm ! k \<in> set Vm"
    using assms by (simp add: table_above_penalty_def length_productivity_types)
  then have row: "length (Vm ! k) = length a_grid" "\<forall>v \<in> set (Vm ! k). - (10 ^ 10) \<le> v"
    using assms(1) by (simp_all add: table_above_penalty_def)
  show "length (Vm ! k) = length a_grid"
    by (rule row(1))
  show "- (10 ^ 10) \<le> Vm ! k ! j" if "j < 100"
    using row that by (simp add: length_a_grid)
qed

lemma interp_at_zero:
  assumes "table_above_penalty Vm" "k < 3"
  shows "interp 0 a_grid (Vm ! k) = Vm ! k ! 0"
proof -
  have "interp (a_grid ! 0) a_grid (Vm ! k) = Vm ! k ! 0"
    using table_above_penalty_row(1) [OF assms]
    by (intro interp_on_grid a_grid_strictly_sorted) (simp_all add: length_a_grid)
  then show ?thesis
    by (simp add: a_grid_nth)
qed

lemma weighted_sum_lower:
  fixes p0 p1 p2 v0 v1 v2 m :: real
  assumes "0 \<le> p0" "0 \<le> p1" "0 \<le> p2" "p0 + p1 + p2 \<le> s" "0 \<le> m"
    and "- m \<le> v0" "- m \<le> v1" "- m \<le> v2"
  shows "- (s * m) \<le> p0 * v0 + p1 * v1 + p2 * v2"
proof -
  have "p0 * (- m) \<le> p0 * v0"
    using assms(6,1) by (rule mult_left_mono)
  moreover have "p1 * (- m) \<le> p1 * v1"
    using assms(7,2) by (rule mult_left_mono)
  moreover have "p2 * (- m) \<le> p2 * v2"
    using assms(8,3) by (rule mult_left_mono)
  moreover have "(p0 + p1 + p2) * m \<le> s * m"
    using assms(4,5) by (rule mult_right_mono)
  ultimately show ?thesis
    by (simp add: algebra_simps)
qed

lemma young_continuation_at_zero:
  assumes "table_above_penalty Vm" "i < 3"
  shows "1 / EPS - 10 ^ 10 < beta * expected_V_middle P Vm i 0"
proof -
  define E where "E = expected_V_middle P Vm i 0"
  have "- ((10001 / 10000) * 10 ^ 10) \<le>
          P ! i ! 0 * (Vm ! 0 ! 0) + P ! i ! 1 * (Vm ! 1 ! 0) + P ! i ! 2 * (Vm ! 2 ! 0)"
    using P_row_facts [OF assms(2)] table_above_penalty_row(2) [OF assms(1), of _ 0]
    by (intro weighted_sum_lower) simp_all
  then have E: "- ((10001 / 10000) * 10 ^ 10) \<le> E"
    by (simp add: E_def expected_V_middle_three interp_at_zero [OF assms(1)])
  have "beta * (- ((10001 / 10000) * 10 ^ 10)) \<le> beta * E"
    using beta_bounds E by (intro mult_left_mono) simp_all
  moreover have "(74 / 100) * (- ((10001 / 10000) * 10 ^ 10))
                   \<le> beta * (- ((10001 / 10000) * 10 ^ 10))"
    using beta_bounds by (intro mult_right_mono_neg) simp_all
  ultimately have "(74 / 100) * (- ((10001 / 10000) * 10 ^ 10)) \<le> beta * E"
    by linarith
  then show ?thesis
    unfolding E_def [symmetric] by (simp add: EPS_def)
qed

subsection \<open>The table of zeros\<close>

lemma interp_between_zero:
  "\<forall>y \<in> set fp. y = 0 \<Longrightarrow> interp_between x xp fp = 0"
  by (induction x xp fp rule: interp_between.induct) simp_all

lemma interp_zero_row: "0 < n \<Longrightarrow> interp x xp (replicate n 0) = 0"
  by (cases n) (simp_all add: interp_def interp_between_zero)

lemma zero_table_nth: "k < 3 \<Longrightarrow> zero_table ! k = replicate 100 0"
  by (simp add: zero_table_def length_productivity_types length_a_grid)

lemma table_above_penalty_zero: "table_above_penalty zero_table"
  by (simp add: table_above_penalty_def zero_table_def)

lemma expected_V_middle_zero: "expected_V_middle Pm zero_table i a = 0"
  by (simp add: expected_V_middle_three zero_table_nth interp_zero_row)

lemma young_objective_zero:
  "young_objective Pm zero_table i tr a =
     (if tr - a \<le> EPS then 10 ^ 10 else - utility (tr - a))"
  by (simp add: young_objective_def Let_def expected_V_middle_zero)

subsection \<open>Continuity of the interpolator and of the continuation values\<close>







subsection \<open>The young-age stage\<close>

lemma young_value_stage:
  "young_value Pm Vm i tr a = utility (tr - a) + beta * expected_V_middle Pm Vm i a"
  by (simp add: young_value_def expected_V_middle_sum)

text \<open>
  The table of the middle stage is a table the young stage accepts, for any optimiser that
  reports the objective at the point it returns: an entry is then the negated penalty or
  a value above \<open>- (2 / EPS)\<close>.
\<close>

lemma middle_objective_upper: "middle_objective tr a \<le> 10 ^ 10"
proof (cases "tr - a \<le> EPS")
  case True
  then show ?thesis
    by (simp add: middle_objective_def Let_def)
next
  case False
  then have "middle_objective tr a = - middle_value tr a"
    by (simp add: middle_objective_feasible)
  moreover have "2 / EPS \<le> 10 ^ 10"
    by (simp add: EPS_def)
  ultimately show ?thesis
    using middle_value_lower [of tr a] by linarith
qed

lemma middle_table_above_penalty:
  assumes "\<And>f b. snd (opt f b) = f (fst (opt f b))"
  shows "table_above_penalty (fst (solve_middle_age opt))"
proof -
  have entry: "- (10 ^ 10) \<le> fst (solve_middle_age opt) ! i ! j" if "i < 3" "j < 100" for i j
  proof -
    define tr where "tr = (1 + r) * a_grid ! j + productivity_types ! i"
    have "EPS < tr"
      using cell_resources_not_degenerate [OF that] EPS_pos unfolding tr_def by linarith
    then have "fst (solve_middle_age opt) ! i ! j =
                 - middle_objective tr (fst (opt (middle_objective tr) (0, tr - EPS)))"
      by (simp add: solve_middle_age_nth [OF that] solve_middle_cell_optimised
            tr_def [symmetric] assms)
    then show ?thesis
      using middle_objective_upper [of tr "fst (opt (middle_objective tr) (0, tr - EPS))"]
      by simp
  qed
  have "length row = length a_grid \<and> (\<forall>v \<in> set row. - (10 ^ 10) \<le> v)"
    if row: "row \<in> set (fst (solve_middle_age opt))" for row
  proof -
    obtain i where "i < length (fst (solve_middle_age opt))"
      and "fst (solve_middle_age opt) ! i = row"
      using row unfolding in_set_conv_nth by blast
    then have i: "i < 3" "row = fst (solve_middle_age opt) ! i"
      by (simp_all add: solve_age_shape)
    have len: "length row = 100"
      using i by (simp add: solve_age_shape)
    have "- (10 ^ 10) \<le> v" if v: "v \<in> set row" for v
    proof -
      obtain j where "j < length row" and "row ! j = v"
        using v unfolding in_set_conv_nth by blast
      then have "j < 100" "v = row ! j"
        using len by simp_all
      then show ?thesis
        using entry [OF i(1)] i(2) by simp
    qed
    then show ?thesis
      using len by (simp add: length_a_grid)
  qed
  then show ?thesis
    by (simp add: table_above_penalty_def solve_age_shape length_productivity_types)
qed

subsection \<open>Rounding at the upper bound\<close>

lemma floor_log2_eq:
  assumes "0 < x" "2 powi e \<le> x" "x < 2 powi (e + 1)"
  shows "\<lfloor>log 2 x\<rfloor> = e"
proof (rule floor_unique)
  have p: "2 powr (of_int e) = (2::real) powi e" "2 powr (of_int e + 1) = (2::real) powi (e + 1)"
    using powr_real_of_int' [of 2 e] powr_real_of_int' [of 2 "e + 1"] by simp_all
  show "of_int e \<le> log 2 x"
    using assms p by (simp add: le_log_iff)
  show "log 2 x < of_int e + 1"
    using assms p by (simp add: log_less_iff)
qed

lemma round_double_eval:
  assumes "0 < x" "2 powi e \<le> x" "x < 2 powi (e + 1)"
  shows "round_double x = of_int (round_half_even (x / 2 powi (e - 52))) * 2 powi (e - 52)"
  using assms floor_log2_eq [OF assms] by (simp add: round_double_def Let_def)

lemma round_half_even_below: "of_int n \<le> x \<Longrightarrow> x < of_int n + 1 / 2 \<Longrightarrow> round_half_even x = n"
proof -
  assume a: "of_int n \<le> x" "x < of_int n + 1 / 2"
  then have "\<lfloor>x\<rfloor> = n"
    by (intro floor_unique) simp_all
  then show ?thesis
    using a by (simp add: round_half_even_def Let_def)
qed

lemma round_half_even_above:
  "of_int n - 1 / 2 < x \<Longrightarrow> x < of_int n \<Longrightarrow> round_half_even x = n"
proof -
  assume a: "of_int n - 1 / 2 < x" "x < of_int n"
  then have "\<lfloor>x\<rfloor> = n - 1"
    by (intro floor_unique) simp_all
  then show ?thesis
    using a by (simp add: round_half_even_def Let_def)
qed

lemma EPS_double_eq: "EPS_double = 6044629098073146 / 2 ^ 79"
proof -
  have "round_double (1 / 10 ^ 8) =
          of_int (round_half_even ((1 / 10 ^ 8) / 2 powi (- 27 - 52))) * 2 powi (- 27 - 52)"
    by (rule round_double_eval) (simp_all add: power_int_minus)
  moreover have "(1 / 10 ^ 8) / 2 powi (- 27 - 52) = (2 ^ 79 / 10 ^ 8 :: real)"
    by (simp add: power_int_minus field_simps)
  moreover have "round_half_even (2 ^ 79 / 10 ^ 8) = 6044629098073146"
    by (rule round_half_even_above) simp_all
  ultimately show ?thesis
    by (simp add: EPS_double_def power_int_minus field_simps)
qed


lemma round_half_even_of_int: "round_half_even (of_int n) = n"
  by (simp add: round_half_even_def Let_def)

lemma round_double_one_minus_EPS:
  "round_double (1 - 6044629098073146 / 2 ^ 79) = 9007199164668999 / 2 ^ 53"
proof -
  have r1: "round_double (1 - 6044629098073146 / 2 ^ 79) =
          of_int (round_half_even ((1 - 6044629098073146 / 2 ^ 79) / 2 powi (- 1 - 52))) *
          2 powi (- 1 - 52)"
    by (rule round_double_eval) (simp_all add: power_int_minus)
  have r2: "(1 - 6044629098073146 / 2 ^ 79) / 2 powi (- 1 - 52) =
              (2 ^ 53 - 6044629098073146 / 2 ^ 26 :: real)"
    by (simp add: power_int_minus field_simps)
  have r3: "round_half_even (2 ^ 53 - 6044629098073146 / 2 ^ 26) = 9007199164668999"
    by (rule round_half_even_below) simp_all
  have "round_double (1 - 6044629098073146 / 2 ^ 79) =
          of_int 9007199164668999 * 2 powi (- 1 - 52)"
    by (simp only: r1 r2 r3)
  also have "\<dots> = 9007199164668999 / 2 ^ 53"
    by (simp add: power_int_minus field_simps)
  finally show ?thesis .
qed

lemma upper_bound_double_one: "upper_bound_double 1 = 1 - 90071993 / 2 ^ 53"
proof -
  have "upper_bound_double 1 = max 0 (9007199164668999 / 2 ^ 53)"
    by (simp only: upper_bound_double_def EPS_double_eq round_double_one_minus_EPS)
  then show ?thesis
    by simp
qed

lemma round_double_small_difference:
  "round_double (1 - (1 - 90071993 / 2 ^ 53)) = 90071993 / 2 ^ 53"
proof -
  define x :: real where "x = 1 - (1 - 90071993 / 2 ^ 53)"
  have x: "x = 90071993 / 2 ^ 53"
    by (simp add: x_def)
  have r1: "round_double x =
          of_int (round_half_even (x / 2 powi (- 27 - 52))) * 2 powi (- 27 - 52)"
    by (rule round_double_eval) (simp_all add: x power_int_minus)
  have r2: "x / 2 powi (- 27 - 52) = of_int 6044629128445952"
    by (simp add: x power_int_minus field_simps)
  have "round_double x = of_int 6044629128445952 * 2 powi (- 27 - 52)"
    by (simp only: r1 r2 round_half_even_of_int)
  also have "\<dots> = 90071993 / 2 ^ 53"
    by (simp add: power_int_minus field_simps)
  finally show ?thesis
    unfolding x_def .
qed

lemma consumption_double_at_upper_bound:
  "consumption_double 1 (upper_bound_double 1) = 90071993 / 2 ^ 53"
  by (simp only: consumption_double_def upper_bound_double_one round_double_small_difference)

lemma EPS_double_below_consumption: "EPS_double < 90071993 / 2 ^ 53"
  by (simp add: EPS_double_eq)

subsection \<open>What the middle stage records\<close>














subsection \<open>Bounds on interpolated values and on the continuation value\<close>

lemma convex_combination_lower:
  fixes t m y0 y1 :: real
  assumes "0 \<le> t" "t \<le> 1" "m \<le> y0" "m \<le> y1"
  shows "m \<le> y0 + (y1 - y0) * t"
proof -
  have "0 \<le> (1 - t) * (y0 - m)" "0 \<le> t * (y1 - m)"
    using assms by simp_all
  then have "0 \<le> (1 - t) * (y0 - m) + t * (y1 - m)"
    by linarith
  then show ?thesis
    by (simp add: algebra_simps)
qed

lemma interp_between_lower:
  "sorted_wrt (<) xp \<Longrightarrow> length fp = length xp \<Longrightarrow> xp \<noteq> [] \<Longrightarrow> hd xp \<le> x \<Longrightarrow>
     \<forall>v \<in> set fp. m \<le> v \<Longrightarrow> m \<le> interp_between x xp fp"
proof (induction x xp fp rule: interp_between.induct)
  case (1 x x0 x1 xp y0 y1 fp)
  show ?case
  proof (cases "x < x1")
    case True
    have less: "x0 < x1"
      using "1.prems"(1) by simp
    have "0 \<le> (x - x0) / (x1 - x0)" "(x - x0) / (x1 - x0) \<le> 1"
      using "1.prems"(4) True less by simp_all
    then have "m \<le> y0 + (y1 - y0) * ((x - x0) / (x1 - x0))"
      using "1.prems"(5) by (intro convex_combination_lower) simp_all
    then show ?thesis
      using True by (simp add: field_simps)
  next
    case False
    then have "m \<le> interp_between x (x1 # xp) (y1 # fp)"
      using "1.prems" by (intro "1.IH") simp_all
    then show ?thesis
      using False by simp
  qed
qed simp_all

lemma interp_lower:
  assumes "sorted_wrt (<) xp" "length fp = length xp" "xp \<noteq> []" "\<forall>v \<in> set fp. m \<le> v"
  shows "m \<le> interp x xp fp"
proof -
  have ne: "fp \<noteq> []"
    using assms(2,3) by auto
  then have "m \<le> hd fp" "m \<le> last fp"
    using assms(4) by simp_all
  moreover have "m \<le> interp_between x xp fp" if "\<not> x < hd xp"
    using assms that by (intro interp_between_lower) simp_all
  ultimately show ?thesis
    by (simp add: interp_def)
qed

lemma interp_row_lower:
  assumes "table_above_penalty Vm" "k < 3"
  shows "- (10 ^ 10) \<le> interp a a_grid (Vm ! k)"
proof -
  have "Vm ! k \<in> set Vm"
    using assms by (simp add: table_above_penalty_def length_productivity_types)
  then have "length (Vm ! k) = length a_grid" "\<forall>v \<in> set (Vm ! k). - (10 ^ 10) \<le> v"
    using assms(1) by (simp_all add: table_above_penalty_def)
  moreover have "a_grid \<noteq> []"
    using length_a_grid by auto
  ultimately show ?thesis
    by (intro interp_lower a_grid_strictly_sorted)
qed

lemma young_continuation_lower:
  assumes "table_above_penalty Vm" "i < 3"
  shows "1 / EPS - 10 ^ 10 < beta * expected_V_middle P Vm i a"
proof -
  define E where "E = expected_V_middle P Vm i a"
  have "- ((10001 / 10000) * 10 ^ 10) \<le>
          P ! i ! 0 * interp a a_grid (Vm ! 0) + P ! i ! 1 * interp a a_grid (Vm ! 1) +
          P ! i ! 2 * interp a a_grid (Vm ! 2)"
    using P_row_facts [OF assms(2)] interp_row_lower [OF assms(1)]
    by (intro weighted_sum_lower) simp_all
  then have E: "- ((10001 / 10000) * 10 ^ 10) \<le> E"
    by (simp add: E_def expected_V_middle_three)
  have "beta * (- ((10001 / 10000) * 10 ^ 10)) \<le> beta * E"
    using beta_bounds E by (intro mult_left_mono) simp_all
  moreover have "(74 / 100) * (- ((10001 / 10000) * 10 ^ 10))
                   \<le> beta * (- ((10001 / 10000) * 10 ^ 10))"
    using beta_bounds by (intro mult_right_mono_neg) simp_all
  ultimately have "(74 / 100) * (- ((10001 / 10000) * 10 ^ 10)) \<le> beta * E"
    by linarith
  then show ?thesis
    unfolding E_def [symmetric] by (simp add: EPS_def)
qed

lemma young_value_above_penalty:
  assumes "table_above_penalty Vm" "i < 3"
  shows "- (10 ^ 10) < young_value P Vm i tr a"
  using young_continuation_lower [OF assms, of a] utility_lower [of "tr - a"]
  by (simp add: young_value_stage)

subsection \<open>The problem handed to the optimiser\<close>



subsection \<open>Where the objectives return the penalty\<close>

lemma midpoint_optimizer_reports:
  "snd (midpoint_optimizer f b) = f (fst (midpoint_optimizer f b))"
  by (simp add: midpoint_optimizer_def Let_def)

lemma first_cell_of_second_type: "(1 + r) * a_grid ! 0 + productivity_types ! 1 = 1"
  by (simp add: a_grid_nth productivity_types_def)

lemma upper_bound_double_value_branch:
  "middle_objective 1 (upper_bound_double 1) = - middle_value 1 (upper_bound_double 1)"
  by (rule middle_objective_feasible) (simp add: upper_bound_double_one EPS_def)

text \<open>
  Claim C10, as amended. Whenever the consumption \<open>total_resources - a\<close> that an objective
  computes does not exceed \<open>EPS\<close>, the objective of either stage returns the penalty
  \<open>10 ^ 10\<close>, for every productivity type and every middle-stage table of the expected
  shape with no entry below the negated penalty (the middle stage's own table is one). The
  negated objective \<open>- (10 ^ 10)\<close> is then different from the sum of utility and discounted
  continuation value, in both stages. Nothing is claimed of the upper bound
  \<open>bounds[1]\<close> that the script computes, which need not be such a point.
\<close>

theorem objective_penalty_at_floored_consumption:
  assumes "i < length productivity_types"
    and "table_above_penalty V_middle"
    and "total_resources - a \<le> EPS"
  shows "middle_objective total_resources a = 10 ^ 10 \<and>
         young_objective P V_middle i total_resources a = 10 ^ 10 \<and>
         - middle_objective total_resources a \<noteq> middle_value total_resources a \<and>
         - young_objective P V_middle i total_resources a \<noteq>
             young_value P V_middle i total_resources a"
proof -
  have i: "i < 3"
    using assms(1) by (simp add: length_productivity_types)
  have m: "middle_objective total_resources a = 10 ^ 10"
    using assms(3) by (simp add: middle_objective_stage stage_objective_penalty)
  have y: "young_objective P V_middle i total_resources a = 10 ^ 10"
    using assms(3) by (simp add: young_objective_stage stage_objective_penalty)
  have "2 / EPS \<le> 10 ^ 10"
    by (simp add: EPS_def)
  then have "- (10 ^ 10) < middle_value total_resources a"
    using middle_value_lower [of total_resources a] by linarith
  moreover have "- (10 ^ 10) < young_value P V_middle i total_resources a"
    using assms(2) i by (rule young_value_above_penalty)
  ultimately show ?thesis
    using m y by simp
qed

theorem objective_penalty_at_floored_consumption_witness:
  "middle_objective 1 1 = 10 ^ 10 \<and>
   young_objective P (fst (solve_middle_age midpoint_optimizer)) 1 1 1 = 10 ^ 10 \<and>
   - middle_objective 1 1 \<noteq> middle_value 1 1 \<and>
   - young_objective P (fst (solve_middle_age midpoint_optimizer)) 1 1 1 \<noteq>
       young_value P (fst (solve_middle_age midpoint_optimizer)) 1 1 1"
proof -
  have h1: "1 < length productivity_types"
    by (simp add: length_productivity_types)
  have h2: "table_above_penalty (fst (solve_middle_age midpoint_optimizer))"
    by (rule middle_table_above_penalty) (rule midpoint_optimizer_reports)
  have h3: "(1::real) - 1 \<le> EPS"
    by (simp add: EPS_def)
  show ?thesis
    by (rule objective_penalty_at_floored_consumption [OF h1 h2 h3])
qed

text \<open>
  At the upper bound that the script hands to the optimiser the penalty is not guaranteed.
  For the cell of the second productivity type at the first grid point the resources are
  exactly 1. In double precision \<open>EPS\<close> is \<open>6044629098073146 / 2 ^ 79\<close>, the bound
  \<open>bounds[1] = 1 - EPS\<close> rounds to \<open>1 - 90071993 / 2 ^ 53\<close>, and the consumption the
  objective computes there, \<open>1 - bounds[1] = 90071993 / 2 ^ 53\<close>, is exact and larger than
  \<open>EPS\<close> (about \<open>1.000000005e-08\<close>). The test \<open>c <= EPS\<close> fails, so the objective takes the
  value branch at that point and returns the negated sum of utility and discounted
  continuation value, not the penalty.
\<close>

theorem upper_bound_not_penalised_counterexample:
  "(1 + r) * a_grid ! 0 + productivity_types ! 1 = 1 \<and>
   EPS_double = 6044629098073146 / 2 ^ 79 \<and>
   upper_bound_double 1 = 1 - 90071993 / 2 ^ 53 \<and>
   consumption_double 1 (upper_bound_double 1) = 90071993 / 2 ^ 53 \<and>
   EPS_double < consumption_double 1 (upper_bound_double 1) \<and>
   \<not> penalty_branch_double 1 (upper_bound_double 1) \<and>
   middle_objective 1 (upper_bound_double 1) = - middle_value 1 (upper_bound_double 1) \<and>
   middle_objective 1 (upper_bound_double 1) \<noteq> 10 ^ 10"
proof -
  have "EPS_double < consumption_double 1 (upper_bound_double 1)"
    by (simp only: consumption_double_at_upper_bound EPS_double_below_consumption)
  moreover from this have "\<not> penalty_branch_double 1 (upper_bound_double 1)"
    by (simp only: penalty_branch_double_def not_le)
  moreover have "2 / EPS \<le> 10 ^ 10"
    by (simp add: EPS_def)
  then have "middle_objective 1 (upper_bound_double 1) \<noteq> 10 ^ 10"
    using middle_value_lower [of 1 "upper_bound_double 1"]
    unfolding upper_bound_double_value_branch by linarith
  ultimately show ?thesis
    using EPS_double_eq upper_bound_double_one consumption_double_at_upper_bound
      first_cell_of_second_type upper_bound_double_value_branch
    by (intro conjI)
qed

subsection \<open>What the young stage records\<close>










subsection \<open>A straight-line table\<close>
















subsection \<open>The order of the policies along a row\<close>

text \<open>
  Along a row the resources increase with the grid index, so exact minimisers of the
  objectives of two cells of a row are ordered like the cells. The recorded policies are
  the points the optimiser returns; their order follows where the returned points are
  closer to the minimisers than the minimisers are to each other. In the middle stage
  the maximisers of neighbouring cells are more than 3/100 apart, so returned points
  within 1/100 of the maximisers are strictly increasing along the row.
\<close>

lemma cell_resources_strict_mono:
  assumes "j1 < j2" "j2 < 100"
  shows "(1 + r) * a_grid ! j1 + w < (1 + r) * a_grid ! j2 + w"
proof -
  have "a_grid ! j1 < a_grid ! j2"
    using assms by (simp add: a_grid_nth)
  then show ?thesis
    using one_plus_r_pos by simp
qed

lemma middle_minimisers_ordered:
  assumes "i < 3" "j1 < j2" "j2 < 100"
    and "minimizes_on (middle_objective ((1 + r) * a_grid ! j1 + productivity_types ! i)) 0
           ((1 + r) * a_grid ! j1 + productivity_types ! i - EPS) x1"
    and "minimizes_on (middle_objective ((1 + r) * a_grid ! j2 + productivity_types ! i)) 0
           ((1 + r) * a_grid ! j2 + productivity_types ! i - EPS) x2"
  shows "x1 \<le> x2"
proof -
  define tr1 where "tr1 = (1 + r) * a_grid ! j1 + productivity_types ! i"
  define tr2 where "tr2 = (1 + r) * a_grid ! j2 + productivity_types ! i"
  have j1: "j1 < 100"
    using assms(2,3) by simp
  have tr1: "EPS < tr1"
    using cell_resources_not_degenerate [OF assms(1) j1] EPS_pos unfolding tr1_def by linarith
  have less: "tr1 < tr2"
    unfolding tr1_def tr2_def using assms(2,3) by (rule cell_resources_strict_mono)
  have x1: "0 \<le> x1" "x1 \<le> tr1 - EPS"
    "\<And>y. 0 \<le> y \<Longrightarrow> y \<le> tr1 - EPS \<Longrightarrow>
       stage_objective (\<lambda>a. beta * V_old a) tr1 x1 \<le> stage_objective (\<lambda>a. beta * V_old a) tr1 y"
    using assms(4) by (simp_all add: minimizes_on_def tr1_def middle_objective_stage)
  have x2: "0 \<le> x2" "x2 \<le> tr2 - EPS"
    "\<And>y. 0 \<le> y \<Longrightarrow> y \<le> tr2 - EPS \<Longrightarrow>
       stage_objective (\<lambda>a. beta * V_old a) tr2 x2 \<le> stage_objective (\<lambda>a. beta * V_old a) tr2 y"
    using assms(5) by (simp_all add: minimizes_on_def tr2_def middle_objective_stage)
  show ?thesis
    using tr1 less middle_continuation_at_zero x1 x2 by (rule stage_minimizer_mono)
qed

lemma young_minimisers_ordered:
  assumes "i < 3" "j1 < j2" "j2 < 100" "table_above_penalty Vm"
    and "minimizes_on (young_objective P Vm i ((1 + r) * a_grid ! j1 + productivity_types ! i)) 0
           ((1 + r) * a_grid ! j1 + productivity_types ! i - EPS) x1"
    and "minimizes_on (young_objective P Vm i ((1 + r) * a_grid ! j2 + productivity_types ! i)) 0
           ((1 + r) * a_grid ! j2 + productivity_types ! i - EPS) x2"
  shows "x1 \<le> x2"
proof -
  define tr1 where "tr1 = (1 + r) * a_grid ! j1 + productivity_types ! i"
  define tr2 where "tr2 = (1 + r) * a_grid ! j2 + productivity_types ! i"
  define C where "C = (\<lambda>a. beta * expected_V_middle P Vm i a)"
  have j1: "j1 < 100"
    using assms(2,3) by simp
  have tr1: "EPS < tr1"
    using cell_resources_not_degenerate [OF assms(1) j1] EPS_pos unfolding tr1_def by linarith
  have less: "tr1 < tr2"
    unfolding tr1_def tr2_def using assms(2,3) by (rule cell_resources_strict_mono)
  have C0: "1 / EPS - 10 ^ 10 < C 0"
    unfolding C_def using assms(4,1) by (rule young_continuation_at_zero)
  have x1: "0 \<le> x1" "x1 \<le> tr1 - EPS"
    "\<And>y. 0 \<le> y \<Longrightarrow> y \<le> tr1 - EPS \<Longrightarrow> stage_objective C tr1 x1 \<le> stage_objective C tr1 y"
    using assms(5) by (simp_all add: minimizes_on_def tr1_def young_objective_stage C_def)
  have x2: "0 \<le> x2" "x2 \<le> tr2 - EPS"
    "\<And>y. 0 \<le> y \<Longrightarrow> y \<le> tr2 - EPS \<Longrightarrow> stage_objective C tr2 x2 \<le> stage_objective C tr2 y"
    using assms(6) by (simp_all add: minimizes_on_def tr2_def young_objective_stage C_def)
  show ?thesis
    using tr1 less C0 x1 x2 by (rule stage_minimizer_mono)
qed

lemma share_difference:
  fixes q t1 t2 D :: real
  shows "q * t2 / D - q * t1 / D = q / D * (t2 - t1)"
  by (simp add: algebra_simps diff_divide_distrib)

lemma middle_maximisers_apart:
  assumes "j1 < j2" "j2 < 100"
  shows "discount_ratio * ((1 + r) * a_grid ! j1 + w) / (1 + discount_ratio) + 3 / 100
           < discount_ratio * ((1 + r) * a_grid ! j2 + w) / (1 + discount_ratio)"
proof -
  define d where "d = a_grid ! j2 - a_grid ! j1"
  have "real j1 + 1 \<le> real j2"
    using assms(1) by linarith
  then have d: "5 / 99 \<le> d"
    using assms by (simp add: d_def a_grid_nth field_simps)
  have r: "16 / 10 \<le> 1 + r"
    using r_bounds by simp
  have "16 / 10 * (5 / 99) \<le> (1 + r) * d"
    using r d by (intro mult_mono) simp_all
  then have step: "8 / 100 < (1 + r) * d"
    by simp
  have share: "2 / 5 \<le> discount_ratio / (1 + discount_ratio)"
    using discount_ratio_bounds by (simp add: field_simps)
  have share0: "0 \<le> discount_ratio / (1 + discount_ratio)"
    using share by linarith
  have step': "8 / 100 \<le> (1 + r) * d"
    using step by linarith
  have "2 / 5 * (8 / 100) \<le> discount_ratio / (1 + discount_ratio) * ((1 + r) * d)"
    by (rule mult_mono [OF share step' share0]) simp
  then have "3 / 100 < discount_ratio / (1 + discount_ratio) * ((1 + r) * d)"
    by simp
  moreover have "((1 + r) * a_grid ! j2 + w) - ((1 + r) * a_grid ! j1 + w) = (1 + r) * d"
    by (simp add: d_def algebra_simps)
  then have "discount_ratio * ((1 + r) * a_grid ! j2 + w) / (1 + discount_ratio) -
             discount_ratio * ((1 + r) * a_grid ! j1 + w) / (1 + discount_ratio) =
             discount_ratio / (1 + discount_ratio) * ((1 + r) * d)"
    using share_difference
      [of discount_ratio "(1 + r) * a_grid ! j2 + w" "1 + discount_ratio"
          "(1 + r) * a_grid ! j1 + w"]
    by simp
  ultimately show ?thesis
    by linarith
qed

lemma middle_policies_ordered_within_tolerance:
  assumes "j1 < j2" "j2 < 100"
    and "\<bar>snd (solve_middle_age minimize_scalar) ! i ! j1 -
          discount_ratio * ((1 + r) * a_grid ! j1 + productivity_types ! i) /
            (1 + discount_ratio)\<bar> \<le> 1 / 100"
    and "\<bar>snd (solve_middle_age minimize_scalar) ! i ! j2 -
          discount_ratio * ((1 + r) * a_grid ! j2 + productivity_types ! i) /
            (1 + discount_ratio)\<bar> \<le> 1 / 100"
  shows "snd (solve_middle_age minimize_scalar) ! i ! j1
           < snd (solve_middle_age minimize_scalar) ! i ! j2"
  using middle_maximisers_apart [OF assms(1,2), of "productivity_types ! i"] assms(3,4)
  by linarith

end
